theory Spec2Isabelle
  imports Main "HOL-Library.Word"
begin

section \<open>Storage, pointers and outcomes\<close>

text \<open>
  The view of \<^verbatim>\<open>include/pl/string_view.hpp\<close> never owns characters: it holds a raw
  pointer into storage owned by somebody else.  Storage is a list of character arrays
  (string literals, buffers of owning strings, character arrays); a pointer is null or names
  an array and an offset into it.  Reading outside an array, or through a null pointer, has
  no defined result in the source language; the model makes that an outcome of its own.
\<close>

datatype pointer = Null | Ptr nat nat

type_synonym 'c heap = "'c list list"

text \<open>What a call can end in instead of a value: the \<^verbatim>\<open>std::out_of_range\<close> thrown by
  \<^verbatim>\<open>at\<close>, an exception of the allocator of an owning string, an exception of an output
  stream, or undefined behaviour.  The first three can be caught; the last cannot.\<close>

datatype error = OutOfRange | BadAlloc | StreamFailure | UndefinedBehaviour

fun recoverable :: "error \<Rightarrow> bool" where
  "recoverable UndefinedBehaviour = False"
| "recoverable e = True"

fun fails_recoverably :: "error + 'a \<Rightarrow> bool" where
  "fails_recoverably (Inl e) = recoverable e"
| "fails_recoverably (Inr x) = False"

text \<open>\<^verbatim>\<open>p + n\<close> and \<^verbatim>\<open>p - n\<close> on a character pointer.  Stepping back before the
  start of the array leaves no usable pointer.\<close>

fun ptr_add :: "pointer \<Rightarrow> nat \<Rightarrow> pointer" where
  "ptr_add Null n = Null"
| "ptr_add (Ptr b i) n = Ptr b (i + n)"

fun ptr_sub :: "pointer \<Rightarrow> nat \<Rightarrow> pointer" where
  "ptr_sub Null n = Null"
| "ptr_sub (Ptr b i) n = (if n \<le> i then Ptr b (i - n) else Null)"

text \<open>\<^verbatim>\<open>*p\<close>: one character read.\<close>

fun load :: "'c heap \<Rightarrow> pointer \<Rightarrow> error + 'c" where
  "load h Null = Inl UndefinedBehaviour"
| "load h (Ptr b i) =
     (if b < length h \<and> i < length (h ! b) then Inr (h ! b ! i) else Inl UndefinedBehaviour)"

text \<open>The \<open>n\<close> characters of the range \<^verbatim>\<open>[p, p + n)\<close>, when that range is readable.\<close>

fun chars_at :: "'c heap \<Rightarrow> pointer \<Rightarrow> nat \<Rightarrow> 'c list option" where
  "chars_at h Null n = None"
| "chars_at h (Ptr b i) n =
     (if b < length h \<and> i + n \<le> length (h ! b) then Some (take n (drop i (h ! b))) else None)"

text \<open>\<^verbatim>\<open>std::size_t\<close> is unsigned and 64 bits wide; the one subtraction of the class that
  can go below zero (\<^verbatim>\<open>size() - 1U\<close> in \<^verbatim>\<open>back\<close>) wraps around.\<close>

definition SIZE_MAX :: nat where
  "SIZE_MAX = 2 ^ 64 - 1"

definition size_t_sub :: "nat \<Rightarrow> nat \<Rightarrow> nat" where
  "size_t_sub a b = (if b \<le> a then a - b else (a + (SIZE_MAX + 1) - b) mod (SIZE_MAX + 1))"

section \<open>The traits policy\<close>

text \<open>
  \<^verbatim>\<open>Traits\<close> is a template parameter of \<^verbatim>\<open>BasicStringView\<close>; the class calls its
  \<^verbatim>\<open>eq\<close>, \<^verbatim>\<open>compare\<close> and \<^verbatim>\<open>length\<close>.  The policy is a parameter of the model too:
  a record of the character equality, the character order and the three-way comparison of
  two ranges of the same length, whose value (beyond its sign) is up to the policy.
\<close>

record 'c traits =
  traits_eq :: "'c \<Rightarrow> 'c \<Rightarrow> bool"
  traits_lt :: "'c \<Rightarrow> 'c \<Rightarrow> bool"
  traits_compare :: "'c list \<Rightarrow> 'c list \<Rightarrow> int"

text \<open>\<^verbatim>\<open>Traits::compare(p, q, n)\<close> reads \<^verbatim>\<open>[p, p + n)\<close> and \<^verbatim>\<open>[q, q + n)\<close>.\<close>

definition Traits_compare ::
  "'c traits \<Rightarrow> 'c heap \<Rightarrow> pointer \<Rightarrow> pointer \<Rightarrow> nat \<Rightarrow> error + int" where
  "Traits_compare T h p q n =
     (case chars_at h p n of
        None \<Rightarrow> Inl UndefinedBehaviour
      | Some xs \<Rightarrow>
          (case chars_at h q n of
             None \<Rightarrow> Inl UndefinedBehaviour
           | Some ys \<Rightarrow> Inr (traits_compare T xs ys)))"

text \<open>\<^verbatim>\<open>Traits::length(p)\<close>: the smallest \<open>i\<close> with \<^verbatim>\<open>eq(p[i], CharT())\<close>; the scan runs
  off the array when there is none.\<close>

fun scan :: "('c \<Rightarrow> bool) \<Rightarrow> 'c list \<Rightarrow> nat option" where
  "scan P [] = None"
| "scan P (x # xs) = (if P x then Some 0 else map_option Suc (scan P xs))"

fun Traits_length :: "('c::zero) traits \<Rightarrow> 'c heap \<Rightarrow> pointer \<Rightarrow> error + nat" where
  "Traits_length T h Null = Inl UndefinedBehaviour"
| "Traits_length T h (Ptr b i) =
     (if b < length h \<and> i \<le> length (h ! b)
      then (case scan (\<lambda>c. traits_eq T c 0) (drop i (h ! b)) of
              None \<Rightarrow> Inl UndefinedBehaviour
            | Some n \<Rightarrow> Inr n)
      else Inl UndefinedBehaviour)"

text \<open>
  What the language standard asks of a traits class.  \<^verbatim>\<open>compare\<close> yields 0 when the ranges
  agree under \<^verbatim>\<open>eq\<close> everywhere, a negative value when at the first disagreement the left
  character is \<^verbatim>\<open>lt\<close> the right one, and a positive value otherwise; \<^verbatim>\<open>eq\<close> is an
  equivalence and \<^verbatim>\<open>lt\<close> a strict total order of its classes.
\<close>

definition compare_contract :: "'c traits \<Rightarrow> bool" where
  "compare_contract T \<longleftrightarrow>
     (\<forall>xs ys. length xs = length ys \<longrightarrow>
        (if \<forall>i<length xs. traits_eq T (xs ! i) (ys ! i) then traits_compare T xs ys = 0
         else if \<exists>j<length xs. traits_lt T (xs ! j) (ys ! j) \<and>
                   (\<forall>i<j. traits_eq T (xs ! i) (ys ! i))
              then traits_compare T xs ys < 0
              else traits_compare T xs ys > 0))"

definition order_contract :: "'c traits \<Rightarrow> bool" where
  "order_contract T \<longleftrightarrow>
     (\<forall>a. traits_eq T a a) \<and>
     (\<forall>a b. traits_eq T a b \<longrightarrow> traits_eq T b a) \<and>
     (\<forall>a b c. traits_eq T a b \<longrightarrow> traits_eq T b c \<longrightarrow> traits_eq T a c) \<and>
     (\<forall>a b. traits_lt T a b \<longrightarrow> \<not> traits_eq T a b) \<and>
     (\<forall>a b. traits_lt T a b \<or> traits_eq T a b \<or> traits_lt T b a) \<and>
     (\<forall>a b c. traits_lt T a b \<longrightarrow> traits_lt T b c \<longrightarrow> traits_lt T a c) \<and>
     (\<forall>a b c. traits_eq T a b \<longrightarrow> traits_lt T b c \<longrightarrow> traits_lt T a c) \<and>
     (\<forall>a b c. traits_lt T a b \<longrightarrow> traits_eq T b c \<longrightarrow> traits_lt T a c)"

definition traits_ok :: "'c traits \<Rightarrow> bool" where
  "traits_ok T \<longleftrightarrow> compare_contract T \<and> order_contract T"

text \<open>The default policy \<^verbatim>\<open>std::char_traits<CharT>\<close>: \<^verbatim>\<open>eq\<close> is \<^verbatim>\<open>==\<close>, \<^verbatim>\<open>lt\<close> is
  \<^verbatim>\<open><\<close>, and \<^verbatim>\<open>compare\<close> walks both ranges up to the first difference.\<close>

fun compare_loop :: "('c \<Rightarrow> 'c \<Rightarrow> bool) \<Rightarrow> 'c list \<Rightarrow> 'c list \<Rightarrow> int" where
  "compare_loop lt (x # xs) (y # ys) =
     (if lt x y then - 1 else if lt y x then 1 else compare_loop lt xs ys)"
| "compare_loop lt xs ys = 0"

definition char_traits :: "('c::linorder) traits" where
  "char_traits = \<lparr>traits_eq = (=), traits_lt = (<), traits_compare = compare_loop (<)\<rparr>"

section \<open>The view\<close>

record view =
  m_data :: pointer
  m_size :: nat

text \<open>An owning string, as far as the view uses it: \<^verbatim>\<open>data()\<close> and \<^verbatim>\<open>size()\<close>.\<close>

record basic_string =
  str_data :: pointer
  str_size :: nat

text \<open>\<^verbatim>\<open>detail::empty_string<CharT>::value\<close> is a string literal: an array of static storage
  that holds the terminator alone.  It is the first array of every store.\<close>

definition empty_string :: pointer where
  "empty_string = Ptr 0 0"

definition static_storage :: "('c::zero) heap \<Rightarrow> bool" where
  "static_storage h \<longleftrightarrow> 0 < length h \<and> h ! 0 = [0]"

subsection \<open>Constructors\<close>

definition BasicStringView :: view where
  "BasicStringView = \<lparr>m_data = empty_string, m_size = 0\<rparr>"

definition view_of_pointer :: "('c::zero) traits \<Rightarrow> 'c heap \<Rightarrow> pointer \<Rightarrow> error + view" where
  "view_of_pointer T h string =
     (case Traits_length T h string of
        Inl e \<Rightarrow> Inl e
      | Inr n \<Rightarrow> Inr \<lparr>m_data = string, m_size = n\<rparr>)"

definition view_of_string :: "basic_string \<Rightarrow> view" where
  "view_of_string string = \<lparr>m_data = str_data string, m_size = str_size string\<rparr>"

text \<open>From an array of \<^verbatim>\<open>Size\<close> characters: \<^verbatim>\<open>Size\<close> is the extent of the array the
  reference binds to, and an array has at least one element.\<close>

definition view_of_array :: "'c heap \<Rightarrow> nat \<Rightarrow> view" where
  "view_of_array h b = \<lparr>m_data = Ptr b 0, m_size = length (h ! b) - 1\<rparr>"

definition view_of_pointer_size :: "pointer \<Rightarrow> nat \<Rightarrow> view" where
  "view_of_pointer_size string n = \<lparr>m_data = string, m_size = n\<rparr>"

subsection \<open>Observers\<close>

definition data :: "view \<Rightarrow> pointer" where
  "data v = m_data v"

definition size_view :: "view \<Rightarrow> nat" where
  "size_view v = m_size v"

definition empty_view :: "view \<Rightarrow> bool" where
  "empty_view v \<longleftrightarrow> size_view v = 0"

definition cbegin :: "view \<Rightarrow> pointer" where
  "cbegin v = data v"

definition cend :: "view \<Rightarrow> pointer" where
  "cend v = ptr_add (cbegin v) (size_view v)"

text \<open>\<^verbatim>\<open>operator[]\<close>: no check.\<close>

definition subscript :: "'c heap \<Rightarrow> view \<Rightarrow> nat \<Rightarrow> error + 'c" where
  "subscript h v position = load h (ptr_add (data v) position)"

definition at_view :: "'c heap \<Rightarrow> view \<Rightarrow> nat \<Rightarrow> error + 'c" where
  "at_view h v position =
     (if position > size_view v then Inl OutOfRange else subscript h v position)"

definition front :: "'c heap \<Rightarrow> view \<Rightarrow> error + 'c" where
  "front h v = subscript h v 0"

definition back_view :: "'c heap \<Rightarrow> view \<Rightarrow> error + 'c" where
  "back_view h v = subscript h v (size_t_sub (size_view v) 1)"

definition compare :: "'c traits \<Rightarrow> 'c heap \<Rightarrow> view \<Rightarrow> view \<Rightarrow> error + int" where
  "compare T h v other =
     (let len = min (size_view v) (size_view other) in
      case Traits_compare T h (data v) (data other) len of
        Inl e \<Rightarrow> Inl e
      | Inr result \<Rightarrow>
          Inr (if result = 0
               then (if size_view v = size_view other then 0
                     else if size_view v < size_view other then - 1 else 1)
               else result))"

definition compare_pointer ::
  "('c::zero) traits \<Rightarrow> 'c heap \<Rightarrow> view \<Rightarrow> pointer \<Rightarrow> error + int" where
  "compare_pointer T h v string =
     (case view_of_pointer T h string of
        Inl e \<Rightarrow> Inl e
      | Inr other \<Rightarrow> compare T h v other)"

text \<open>\<^verbatim>\<open>not empty() and eq(character, front())\<close>: the right operand is evaluated only when
  the left one holds.\<close>

definition starts_with_char :: "'c traits \<Rightarrow> 'c heap \<Rightarrow> view \<Rightarrow> 'c \<Rightarrow> error + bool" where
  "starts_with_char T h v character =
     (if \<not> empty_view v
      then (case front h v of Inl e \<Rightarrow> Inl e | Inr c \<Rightarrow> Inr (traits_eq T character c))
      else Inr False)"

definition starts_with :: "'c traits \<Rightarrow> 'c heap \<Rightarrow> view \<Rightarrow> view \<Rightarrow> error + bool" where
  "starts_with T h v stringView =
     (if size_view v \<ge> size_view stringView
      then (case Traits_compare T h (data v) (data stringView) (size_view stringView) of
              Inl e \<Rightarrow> Inl e
            | Inr r \<Rightarrow> Inr (r = 0))
      else Inr False)"

definition ends_with_char :: "'c traits \<Rightarrow> 'c heap \<Rightarrow> view \<Rightarrow> 'c \<Rightarrow> error + bool" where
  "ends_with_char T h v character =
     (if \<not> empty_view v
      then (case back_view h v of Inl e \<Rightarrow> Inl e | Inr c \<Rightarrow> Inr (traits_eq T character c))
      else Inr False)"

definition ends_with :: "'c traits \<Rightarrow> 'c heap \<Rightarrow> view \<Rightarrow> view \<Rightarrow> error + bool" where
  "ends_with T h v stringView =
     (if size_view v \<ge> size_view stringView
      then (case Traits_compare T h
                   (ptr_sub (ptr_add (data v) (size_view v)) (size_view stringView))
                   (data stringView) (size_view stringView) of
              Inl e \<Rightarrow> Inl e
            | Inr r \<Rightarrow> Inr (r = 0))
      else Inr False)"

text \<open>
  \<^verbatim>\<open>to_string\<close> is not \<^verbatim>\<open>noexcept\<close>: it hands \<^verbatim>\<open>[begin(), end())\<close> and the caller's
  allocator to the constructor of the owning string, which obtains storage for the
  characters and then copies them into a fresh array, terminator appended.  The allocator
  is a parameter: it says for which lengths the owning string gets its storage, and a
  refusal is the allocator's exception, passed on to the caller.
\<close>

type_synonym allocator = "nat \<Rightarrow> bool"

definition to_string ::
  "allocator \<Rightarrow> ('c::zero) heap \<Rightarrow> view \<Rightarrow> error + ('c heap \<times> basic_string)" where
  "to_string allocator h v =
     (if \<not> allocator (size_view v) then Inl BadAlloc
      else case chars_at h (cbegin v) (size_view v) of
             None \<Rightarrow> Inl UndefinedBehaviour
           | Some cs \<Rightarrow>
               Inr (h @ [cs @ [0]], \<lparr>str_data = Ptr (length h) 0, str_size = length cs\<rparr>))"

text \<open>An allocator that never refuses, and one with a bound on what it gives out.\<close>

definition unbounded_allocator :: allocator where
  "unbounded_allocator n = True"

definition bounded_allocator :: "nat \<Rightarrow> allocator" where
  "bounded_allocator limit n \<longleftrightarrow> n \<le> limit"

subsection \<open>Free functions\<close>

text \<open>
  \<^verbatim>\<open>operator<<\<close> is not \<^verbatim>\<open>noexcept\<close> either: it is \<^verbatim>\<open>os.write(data(), size())\<close>.  The
  stream is a parameter: its \<^verbatim>\<open>write\<close> takes the characters and gives the stream
  afterwards, or nothing when the stream throws.
\<close>

definition operator_insert ::
  "('s \<Rightarrow> 'c list \<Rightarrow> 's option) \<Rightarrow> 'c heap \<Rightarrow> 's \<Rightarrow> view \<Rightarrow> error + 's" where
  "operator_insert write h os string =
     (case chars_at h (data string) (size_view string) of
        None \<Rightarrow> Inl UndefinedBehaviour
      | Some cs \<Rightarrow>
          (case write os cs of
             None \<Rightarrow> Inl StreamFailure
           | Some os' \<Rightarrow> Inr os'))"

text \<open>The relational operators on two views, each a test of what \<^verbatim>\<open>compare\<close> returns;
  the overloads that take an owning string or a character pointer build a view of it first.\<close>

definition operator_eq :: "'c traits \<Rightarrow> 'c heap \<Rightarrow> view \<Rightarrow> view \<Rightarrow> error + bool" where
  "operator_eq T h x y = (case compare T h x y of Inl e \<Rightarrow> Inl e | Inr r \<Rightarrow> Inr (r = 0))"

definition operator_ne :: "'c traits \<Rightarrow> 'c heap \<Rightarrow> view \<Rightarrow> view \<Rightarrow> error + bool" where
  "operator_ne T h x y = (case operator_eq T h x y of Inl e \<Rightarrow> Inl e | Inr b \<Rightarrow> Inr (\<not> b))"

definition operator_lt :: "'c traits \<Rightarrow> 'c heap \<Rightarrow> view \<Rightarrow> view \<Rightarrow> error + bool" where
  "operator_lt T h x y = (case compare T h x y of Inl e \<Rightarrow> Inl e | Inr r \<Rightarrow> Inr (r < 0))"

definition operator_gt :: "'c traits \<Rightarrow> 'c heap \<Rightarrow> view \<Rightarrow> view \<Rightarrow> error + bool" where
  "operator_gt T h x y = (case compare T h x y of Inl e \<Rightarrow> Inl e | Inr r \<Rightarrow> Inr (r > 0))"

definition operator_le :: "'c traits \<Rightarrow> 'c heap \<Rightarrow> view \<Rightarrow> view \<Rightarrow> error + bool" where
  "operator_le T h x y = (case compare T h x y of Inl e \<Rightarrow> Inl e | Inr r \<Rightarrow> Inr (r \<le> 0))"

definition operator_ge :: "'c traits \<Rightarrow> 'c heap \<Rightarrow> view \<Rightarrow> view \<Rightarrow> error + bool" where
  "operator_ge T h x y = (case compare T h x y of Inl e \<Rightarrow> Inl e | Inr r \<Rightarrow> Inr (r \<ge> 0))"

subsection \<open>Mutators\<close>

text \<open>\<^verbatim>\<open>remove_prefix\<close> and \<^verbatim>\<open>swap\<close> assign to the fields of view objects.  A program state
  is the character storage together with the view objects, each at its own address; the
  assignments are those of the source, in its order, so that \<^verbatim>\<open>a.swap(a)\<close> is covered.\<close>

record 'c state =
  heap :: "'c heap"
  views :: "nat \<Rightarrow> view"

definition set_data :: "nat \<Rightarrow> pointer \<Rightarrow> 'c state \<Rightarrow> 'c state" where
  "set_data a p s = s\<lparr>views := (views s)(a := (views s a)\<lparr>m_data := p\<rparr>)\<rparr>"

definition set_size :: "nat \<Rightarrow> nat \<Rightarrow> 'c state \<Rightarrow> 'c state" where
  "set_size a n s = s\<lparr>views := (views s)(a := (views s a)\<lparr>m_size := n\<rparr>)\<rparr>"

definition remove_prefix :: "nat \<Rightarrow> nat \<Rightarrow> 'c state \<Rightarrow> 'c state" where
  "remove_prefix this charactersToRemove s =
     (let n = (if charactersToRemove > size_view (views s this)
               then size_view (views s this) else charactersToRemove);
          s1 = set_data this (ptr_add (m_data (views s this)) n) s;
          s2 = set_size this (m_size (views s1 this) - n) s1
      in s2)"

definition swap_view :: "nat \<Rightarrow> nat \<Rightarrow> 'c state \<Rightarrow> 'c state" where
  "swap_view this other s =
     (let pointer = m_data (views s this);
          s1 = set_data this (m_data (views s other)) s;
          s2 = set_data other pointer s1;
          size = m_size (views s2 this);
          s3 = set_size this (m_size (views s2 other)) s2;
          s4 = set_size other size s3
      in s4)"

section \<open>The invariant of the data model\<close>

text \<open>The characters a view shows, when its range is readable.\<close>

definition content :: "'c heap \<Rightarrow> view \<Rightarrow> 'c list option" where
  "content h v = chars_at h (m_data v) (m_size v)"

text \<open>A view over a null-terminated source: \<^verbatim>\<open>[data(), data() + size()]\<close> is readable and
  the character after the last viewed one is the terminator.\<close>

fun terminated_at :: "('c::zero) heap \<Rightarrow> pointer \<Rightarrow> nat \<Rightarrow> bool" where
  "terminated_at h Null n = False"
| "terminated_at h (Ptr b i) n \<longleftrightarrow> b < length h \<and> i + n < length (h ! b) \<and> h ! b ! (i + n) = 0"

definition valid_view :: "('c::zero) heap \<Rightarrow> view \<Rightarrow> bool" where
  "valid_view h v \<longleftrightarrow> terminated_at h (m_data v) (m_size v)"

text \<open>No array is longer than the largest \<^verbatim>\<open>std::size_t\<close>.\<close>

definition addressable :: "'c heap \<Rightarrow> bool" where
  "addressable h \<longleftrightarrow> list_all (\<lambda>xs. length xs \<le> SIZE_MAX) h"

section \<open>Reference notions for the comparison\<close>

text \<open>The lexicographic three-way order of two character sequences under a policy, as a
  sign: the first position where the sequences disagree decides, and a proper prefix is
  smaller.\<close>

fun lex_sign :: "'c traits \<Rightarrow> 'c list \<Rightarrow> 'c list \<Rightarrow> int" where
  "lex_sign T [] [] = 0"
| "lex_sign T [] (y # ys) = - 1"
| "lex_sign T (x # xs) [] = 1"
| "lex_sign T (x # xs) (y # ys) =
     (if traits_eq T x y then lex_sign T xs ys else if traits_lt T x y then - 1 else 1)"

text \<open>A policy that differs from the default one only in the positive value it reports:
  the standard prescribes the sign of \<^verbatim>\<open>compare\<close> and nothing more.\<close>

fun skew_loop :: "('c \<Rightarrow> 'c \<Rightarrow> bool) \<Rightarrow> 'c list \<Rightarrow> 'c list \<Rightarrow> int" where
  "skew_loop lt (x # xs) (y # ys) =
     (if lt x y then - 1 else if lt y x then 2 else skew_loop lt xs ys)"
| "skew_loop lt xs ys = 0"

definition skew_traits :: "('c::linorder) traits" where
  "skew_traits = \<lparr>traits_eq = (=), traits_lt = (<), traits_compare = skew_loop (<)\<rparr>"

section \<open>Concrete storage for the scenarios\<close>

text \<open>The literals \<^verbatim>\<open>""\<close>, \<^verbatim>\<open>"hello"\<close>, \<^verbatim>\<open>"abc"\<close>, \<^verbatim>\<open>"abd"\<close>, \<^verbatim>\<open>"he"\<close> and
  \<^verbatim>\<open>"lo"\<close> as arrays of 8-bit characters, and the views built from them by the array
  constructor.\<close>

definition example_heap :: "8 word heap" where
  "example_heap =
     [[0], [104, 101, 108, 108, 111, 0], [97, 98, 99, 0], [97, 98, 100, 0],
      [104, 101, 0], [108, 111, 0]]"

definition hello :: view where "hello = view_of_array example_heap 1"
definition abc :: view where "abc = view_of_array example_heap 2"
definition abd :: view where "abd = view_of_array example_heap 3"
definition he :: view where "he = view_of_array example_heap 4"
definition lo :: view where "lo = view_of_array example_heap 5"

text \<open>A literal of 32 characters, longer than what an owning string keeps inside itself
  without asking its allocator.\<close>

definition long_heap :: "8 word heap" where
  "long_heap =
     [[0],
      [97, 97, 97, 97, 97, 97, 97, 97, 97, 97, 97, 97, 97, 97, 97, 97,
       97, 97, 97, 97, 97, 97, 97, 97, 97, 97, 97, 97, 97, 97, 97, 97, 0]]"

definition long_text :: view where "long_text = view_of_array long_heap 1"

section \<open>Facts about the traits contract\<close>

lemma lex_sign_range: "lex_sign T xs ys = - 1 \<or> lex_sign T xs ys = 0 \<or> lex_sign T xs ys = 1"
  by (induction T xs ys rule: lex_sign.induct) auto

lemma lex_sign_zero_iff:
  "length xs = length ys \<Longrightarrow>
     lex_sign T xs ys = 0 \<longleftrightarrow> (\<forall>i<length xs. traits_eq T (xs ! i) (ys ! i))"
  by (induction xs ys rule: list_induct2) (auto simp add: All_less_Suc2)

lemma lex_sign_neg_iff:
  assumes "\<And>a b. traits_lt T a b \<Longrightarrow> \<not> traits_eq T a b" and "length xs = length ys"
  shows "lex_sign T xs ys = - 1 \<longleftrightarrow>
           (\<exists>j<length xs. traits_lt T (xs ! j) (ys ! j) \<and> (\<forall>i<j. traits_eq T (xs ! i) (ys ! i)))"
  using assms(2)
proof (induction xs ys rule: list_induct2)
  case Nil
  then show ?case by simp
next
  case (Cons x xs y ys)
  show ?case
  proof (cases "traits_eq T x y")
    case True
    then have "\<not> traits_lt T x y" using assms(1) by blast
    with True Cons.IH show ?thesis
      by (simp add: Ex_less_Suc2 All_less_Suc2)
  next
    case False
    then show ?thesis
      by (auto simp add: Ex_less_Suc2 All_less_Suc2)
  qed
qed


lemma order_contract_conjs:
  assumes "order_contract T"
  shows "\<forall>a. traits_eq T a a"
    and "\<forall>a b. traits_eq T a b \<longrightarrow> traits_eq T b a"
    and "\<forall>a b c. traits_eq T a b \<longrightarrow> traits_eq T b c \<longrightarrow> traits_eq T a c"
    and "\<forall>a b. traits_lt T a b \<longrightarrow> \<not> traits_eq T a b"
    and "\<forall>a b. traits_lt T a b \<or> traits_eq T a b \<or> traits_lt T b a"
    and "\<forall>a b c. traits_lt T a b \<longrightarrow> traits_lt T b c \<longrightarrow> traits_lt T a c"
    and "\<forall>a b c. traits_eq T a b \<longrightarrow> traits_lt T b c \<longrightarrow> traits_lt T a c"
    and "\<forall>a b c. traits_lt T a b \<longrightarrow> traits_eq T b c \<longrightarrow> traits_lt T a c"
  using assms unfolding order_contract_def by - (elim conjE, assumption)+

lemma order_contract_lt_not_eq: "order_contract T \<Longrightarrow> traits_lt T a b \<Longrightarrow> \<not> traits_eq T a b"
  using order_contract_conjs(4) [of T] by blast

lemma order_contract_refl: "order_contract T \<Longrightarrow> traits_eq T a a"
  using order_contract_conjs(1) [of T] by blast

lemma order_contract_sym: "order_contract T \<Longrightarrow> traits_eq T a b \<Longrightarrow> traits_eq T b a"
  using order_contract_conjs(2) [of T] by blast

lemma order_contract_eq_trans:
  "order_contract T \<Longrightarrow> traits_eq T a b \<Longrightarrow> traits_eq T b c \<Longrightarrow> traits_eq T a c"
  using order_contract_conjs(3) [of T] by blast

lemma order_contract_total:
  "order_contract T \<Longrightarrow> \<not> traits_eq T a b \<Longrightarrow> \<not> traits_lt T a b \<Longrightarrow> traits_lt T b a"
  using order_contract_conjs(5) [of T] by blast

lemma order_contract_lt_trans:
  "order_contract T \<Longrightarrow> traits_lt T a b \<Longrightarrow> traits_lt T b c \<Longrightarrow> traits_lt T a c"
  using order_contract_conjs(6) [of T] by blast

lemma order_contract_eq_lt:
  "order_contract T \<Longrightarrow> traits_eq T a b \<Longrightarrow> traits_lt T b c \<Longrightarrow> traits_lt T a c"
  using order_contract_conjs(7) [of T] by blast

lemma order_contract_lt_eq:
  "order_contract T \<Longrightarrow> traits_lt T a b \<Longrightarrow> traits_eq T b c \<Longrightarrow> traits_lt T a c"
  using order_contract_conjs(8) [of T] by blast

lemma order_contract_asym:
  "order_contract T \<Longrightarrow> traits_lt T a b \<Longrightarrow> \<not> traits_lt T b a"
  using order_contract_lt_trans [of T a b a] order_contract_lt_not_eq [of T a a]
    order_contract_refl [of T a] by blast

text \<open>Under the contract the sign of the policy's comparison is the lexicographic one.\<close>

lemma traits_compare_sgn:
  assumes "traits_ok T" and "length xs = length ys"
  shows "sgn (traits_compare T xs ys) = lex_sign T xs ys"
proof -
  have c: "compare_contract T" and o: "order_contract T"
    using assms(1) by (simp_all add: traits_ok_def)
  let ?all = "\<forall>i<length xs. traits_eq T (xs ! i) (ys ! i)"
  let ?ex = "\<exists>j<length xs. traits_lt T (xs ! j) (ys ! j) \<and> (\<forall>i<j. traits_eq T (xs ! i) (ys ! i))"
  have z: "lex_sign T xs ys = 0 \<longleftrightarrow> ?all"
    by (rule lex_sign_zero_iff [OF assms(2)])
  have n: "lex_sign T xs ys = - 1 \<longleftrightarrow> ?ex"
    by (rule lex_sign_neg_iff [OF order_contract_lt_not_eq [OF o] assms(2)])
  from c assms(2) have k:
    "if ?all then traits_compare T xs ys = 0
     else if ?ex then traits_compare T xs ys < 0 else traits_compare T xs ys > 0"
    unfolding compare_contract_def by (elim allE [of _ xs] allE [of _ ys]) (erule impE, assumption+)
  show ?thesis
  proof (cases ?all)
    case True
    with k z show ?thesis by simp
  next
    case False
    note nall = this
    show ?thesis
    proof (cases ?ex)
      case True
      with k nall n show ?thesis by simp
    next
      case False
      with k nall have "traits_compare T xs ys > 0" by simp
      moreover from False nall z n lex_sign_range [of T xs ys] have "lex_sign T xs ys = 1"
        by blast
      ultimately show ?thesis by simp
    qed
  qed
qed

lemma lex_sign_take:
  "lex_sign T xs ys =
     (let c = lex_sign T (take (min (length xs) (length ys)) xs)
                         (take (min (length xs) (length ys)) ys)
      in if c = 0
         then (if length xs = length ys then 0 else if length xs < length ys then - 1 else 1)
         else c)"
  by (induction T xs ys rule: lex_sign.induct) (simp_all add: Let_def)

lemma lex_sign_refl: "order_contract T \<Longrightarrow> lex_sign T xs xs = 0"
  by (induction xs) (simp_all add: order_contract_refl)

lemma lex_sign_antisym: "order_contract T \<Longrightarrow> lex_sign T ys xs = - lex_sign T xs ys"
proof (induction T xs ys rule: lex_sign.induct)
  case (4 T x xs y ys)
  note o = \<open>order_contract T\<close>
  show ?case
  proof (cases "traits_eq T x y")
    case True
    with o have "traits_eq T y x" by (rule order_contract_sym)
    with True 4 show ?thesis by simp
  next
    case False
    with o have n: "\<not> traits_eq T y x" using order_contract_sym [of T y x] by blast
    show ?thesis
    proof (cases "traits_lt T x y")
      case True
      with o have "\<not> traits_lt T y x" by (rule order_contract_asym)
      with True False n show ?thesis by simp
    next
      case nlt: False
      with o False have "traits_lt T y x" by (rule order_contract_total)
      with nlt False n show ?thesis by simp
    qed
  qed
qed simp_all

lemma lex_sign_trans:
  assumes "order_contract T"
  shows "lex_sign T xs ys < 0 \<Longrightarrow> lex_sign T ys zs < 0 \<Longrightarrow> lex_sign T xs zs < 0"
proof (induction xs arbitrary: ys zs)
  case Nil
  then show ?case by (cases ys; cases zs) (auto split: if_splits)
next
  case (Cons x xs)
  from Cons.prems obtain y ys' where ys: "ys = y # ys'"
    by (cases ys) auto
  from Cons.prems ys obtain z zs' where zs: "zs = z # zs'"
    by (cases zs) (auto split: if_splits)
  note o = assms
  show ?case
  proof (cases "traits_eq T x y")
    case xy: True
    with Cons.prems ys have l1: "lex_sign T xs ys' < 0" by simp
    show ?thesis
    proof (cases "traits_eq T y z")
      case yz: True
      with Cons.prems ys zs have "lex_sign T ys' zs' < 0" by simp
      with l1 have "lex_sign T xs zs' < 0" by (rule Cons.IH)
      moreover have "traits_eq T x z" using o xy yz by (rule order_contract_eq_trans)
      ultimately show ?thesis using zs by simp
    next
      case nyz: False
      with Cons.prems ys zs have "traits_lt T y z" by (simp split: if_splits)
      with o xy have lt: "traits_lt T x z" by (rule order_contract_eq_lt)
      with o have "\<not> traits_eq T x z" by (rule order_contract_lt_not_eq)
      with lt zs show ?thesis by simp
    qed
  next
    case nxy: False
    with Cons.prems ys have xy: "traits_lt T x y" by (simp split: if_splits)
    have lt: "traits_lt T x z"
    proof (cases "traits_eq T y z")
      case True
      with o xy show ?thesis by (rule order_contract_lt_eq)
    next
      case False
      with Cons.prems ys zs have "traits_lt T y z" by (simp split: if_splits)
      with o xy show ?thesis by (rule order_contract_lt_trans)
    qed
    with o have "\<not> traits_eq T x z" by (rule order_contract_lt_not_eq)
    with lt zs show ?thesis by simp
  qed
qed

section \<open>Facts about storage and pointers\<close>

lemmas observers = data_def size_view_def empty_view_def cbegin_def cend_def

lemma chars_at_length: "chars_at h p m = Some xs \<Longrightarrow> length xs = m"
  by (cases p) (auto split: if_splits)

lemma chars_at_take: "chars_at h p m = Some xs \<Longrightarrow> n \<le> m \<Longrightarrow> chars_at h p n = Some (take n xs)"
  by (cases p) (auto split: if_splits simp add: min_def)

lemma chars_at_ptr_add:
  "n \<le> m \<Longrightarrow> chars_at h (ptr_add p n) (m - n) = map_option (drop n) (chars_at h p m)"
  by (cases p) (auto simp add: drop_take add.commute)

lemma chars_at_suffix:
  "chars_at h p m = Some xs \<Longrightarrow> n \<le> m \<Longrightarrow>
     chars_at h (ptr_sub (ptr_add p m) n) n = Some (drop (m - n) xs)"
  by (cases p) (auto split: if_splits simp add: drop_take add.commute)

lemma chars_at_extend:
  "chars_at h p m = Some xs \<Longrightarrow> chars_at (h @ [ys]) p m = Some xs"
  by (cases p) (auto split: if_splits simp add: nth_append)

lemma chars_at_fresh:
  "chars_at (h @ [cs @ [z]]) (Ptr (length h) 0) (length cs) = Some cs"
  by simp

lemma content_length: "content h v = Some xs \<Longrightarrow> length xs = size_view v"
  by (simp add: content_def size_view_def chars_at_length)

lemma load_chars_at:
  "chars_at h p m = Some xs \<Longrightarrow> k < m \<Longrightarrow> load h (ptr_add p k) = Inr (xs ! k)"
  by (cases p) (auto split: if_splits)

text \<open>The value \<^verbatim>\<open>compare\<close> returns on two readable views.\<close>

lemma compare_value:
  assumes "content h a = Some xs" and "content h b = Some ys"
  shows "compare T h a b =
           Inr (let n = min (size_view a) (size_view b);
                    c = traits_compare T (take n xs) (take n ys)
                in if c = 0
                   then (if size_view a = size_view b then 0
                         else if size_view a < size_view b then - 1 else 1)
                   else c)"
proof -
  let ?n = "min (size_view a) (size_view b)"
  have "chars_at h (data a) ?n = Some (take ?n xs)"
    using chars_at_take [of h "m_data a" "m_size a" xs ?n] assms(1)
    by (simp add: content_def observers)
  moreover have "chars_at h (data b) ?n = Some (take ?n ys)"
    using chars_at_take [of h "m_data b" "m_size b" ys ?n] assms(2)
    by (simp add: content_def observers)
  ultimately show ?thesis
    by (simp add: compare_def Traits_compare_def Let_def)
qed

lemma compare_sgn:
  assumes "traits_ok T" and "content h a = Some xs" and "content h b = Some ys"
  shows "\<exists>r. compare T h a b = Inr r \<and> sgn r = lex_sign T xs ys"
proof -
  let ?n = "min (size_view a) (size_view b)"
  let ?c = "traits_compare T (take ?n xs) (take ?n ys)"
  have la: "length xs = size_view a" and lb: "length ys = size_view b"
    using assms(2,3) by (simp_all add: content_length)
  have "length (take ?n xs) = length (take ?n ys)"
    using la lb by simp
  with assms(1) have s: "sgn ?c = lex_sign T (take ?n xs) (take ?n ys)"
    by (rule traits_compare_sgn)
  have l: "lex_sign T xs ys =
      (if lex_sign T (take ?n xs) (take ?n ys) = 0
       then (if size_view a = size_view b then 0
             else if size_view a < size_view b then - 1 else 1)
       else lex_sign T (take ?n xs) (take ?n ys))"
    using lex_sign_take [of T xs ys] la lb by (simp add: Let_def)
  have z: "?c = 0 \<longleftrightarrow> lex_sign T (take ?n xs) (take ?n ys) = 0"
    using s by (metis sgn_0_0)
  show ?thesis
    unfolding compare_value [OF assms(2,3)] Let_def
    using s l z by auto
qed

section \<open>The default policy meets the contract\<close>

lemma compare_contractI:
  assumes ne: "\<And>a b. traits_lt T a b \<Longrightarrow> \<not> traits_eq T a b"
    and sg: "\<And>xs ys. length xs = length ys \<Longrightarrow> sgn (traits_compare T xs ys) = lex_sign T xs ys"
  shows "compare_contract T"
  unfolding compare_contract_def
proof (intro allI impI)
  fix xs ys :: "'a list"
  assume len: "length xs = length ys"
  let ?all = "\<forall>i<length xs. traits_eq T (xs ! i) (ys ! i)"
  let ?ex = "\<exists>j<length xs. traits_lt T (xs ! j) (ys ! j) \<and> (\<forall>i<j. traits_eq T (xs ! i) (ys ! i))"
  have z: "lex_sign T xs ys = 0 \<longleftrightarrow> ?all"
    by (rule lex_sign_zero_iff [OF len])
  have n: "lex_sign T xs ys = - 1 \<longleftrightarrow> ?ex"
    by (rule lex_sign_neg_iff [OF ne len])
  have s: "sgn (traits_compare T xs ys) = lex_sign T xs ys"
    by (rule sg [OF len])
  have c0: "?all \<Longrightarrow> traits_compare T xs ys = 0"
    using s z by (metis sgn_0_0)
  have c1: "\<not> ?all \<Longrightarrow> ?ex \<Longrightarrow> traits_compare T xs ys < 0"
  proof -
    assume "?ex"
    with n s have "sgn (traits_compare T xs ys) = - 1" by simp
    then show ?thesis by (simp add: sgn_1_neg)
  qed
  have c2: "\<not> ?all \<Longrightarrow> \<not> ?ex \<Longrightarrow> traits_compare T xs ys > 0"
  proof -
    assume "\<not> ?all" and "\<not> ?ex"
    with z n lex_sign_range [of T xs ys] have "lex_sign T xs ys = 1" by blast
    with s show ?thesis by (simp add: sgn_1_pos)
  qed
  show "if ?all then traits_compare T xs ys = 0
        else if ?ex then traits_compare T xs ys < 0 else traits_compare T xs ys > 0"
    using c0 c1 c2 by presburger
qed

lemma compare_loop_lex_sign:
  "length xs = length ys \<Longrightarrow>
     compare_loop (<) xs ys = lex_sign (char_traits :: ('c::linorder) traits) xs ys"
  by (induction xs ys rule: list_induct2) (auto simp add: char_traits_def)

lemma skew_loop_lex_sign:
  "length xs = length ys \<Longrightarrow>
     sgn (skew_loop (<) xs ys) = lex_sign (skew_traits :: ('c::linorder) traits) xs ys"
  by (induction xs ys rule: list_induct2) (auto simp add: skew_traits_def)

lemma char_traits_order: "order_contract (char_traits :: ('c::linorder) traits)"
  by (auto simp add: order_contract_def char_traits_def)

lemma skew_traits_order: "order_contract (skew_traits :: ('c::linorder) traits)"
  by (auto simp add: order_contract_def skew_traits_def)

lemma char_traits_ok: "traits_ok (char_traits :: ('c::linorder) traits)"
proof -
  have "compare_contract (char_traits :: 'c traits)"
  proof (rule compare_contractI)
    fix xs ys :: "'c list"
    assume "length xs = length ys"
    then have "compare_loop (<) xs ys = lex_sign (char_traits :: 'c traits) xs ys"
      by (rule compare_loop_lex_sign)
    moreover have "sgn (lex_sign (char_traits :: 'c traits) xs ys) = lex_sign char_traits xs ys"
      using lex_sign_range [of "char_traits :: 'c traits" xs ys] by auto
    ultimately show "sgn (traits_compare char_traits xs ys) = lex_sign char_traits xs ys"
      by (simp add: char_traits_def)
  qed (simp add: char_traits_def)
  then show ?thesis
    by (simp add: traits_ok_def char_traits_order)
qed

lemma skew_traits_ok: "traits_ok (skew_traits :: ('c::linorder) traits)"
proof -
  have "compare_contract (skew_traits :: 'c traits)"
  proof (rule compare_contractI)
    fix xs ys :: "'c list"
    assume "length xs = length ys"
    then have "sgn (skew_loop (<) xs ys) = lex_sign (skew_traits :: 'c traits) xs ys"
      by (rule skew_loop_lex_sign)
    then show "sgn (traits_compare skew_traits xs ys) = lex_sign skew_traits xs ys"
      by (simp add: skew_traits_def)
  qed (simp add: skew_traits_def)
  then show ?thesis
    by (simp add: traits_ok_def skew_traits_order)
qed

lemma compare_loop_antisym:
  "compare_loop (<) ys xs = - compare_loop (<) (xs :: ('c::linorder) list) ys"
  by (induction "(<) :: 'c \<Rightarrow> 'c \<Rightarrow> bool" xs ys rule: compare_loop.induct) auto

lemmas examples = example_heap_def hello_def abc_def abd_def he_def lo_def view_of_array_def

lemma content_examples:
  "content example_heap hello = Some [104, 101, 108, 108, 111]"
  "content example_heap abc = Some [97, 98, 99]"
  "content example_heap abd = Some [97, 98, 100]"
  "content example_heap he = Some [104, 101]"
  "content example_heap lo = Some [108, 111]"
  by (simp_all add: content_def examples)

lemma compare_contract_zero:
  "compare_contract T \<Longrightarrow> length xs = length ys \<Longrightarrow>
     traits_compare T xs ys = 0 \<longleftrightarrow> (\<forall>i<length xs. traits_eq T (xs ! i) (ys ! i))"
  unfolding compare_contract_def
  by (elim allE [of _ xs] allE [of _ ys]) (auto split: if_splits)

lemma compare_contract_neg:
  "compare_contract T \<Longrightarrow> length xs = length ys \<Longrightarrow>
     traits_compare T xs ys < 0 \<longleftrightarrow>
       \<not> (\<forall>i<length xs. traits_eq T (xs ! i) (ys ! i)) \<and>
       (\<exists>j<length xs. traits_lt T (xs ! j) (ys ! j) \<and> (\<forall>i<j. traits_eq T (xs ! i) (ys ! i)))"
  unfolding compare_contract_def
  by (elim allE [of _ xs] allE [of _ ys]) (auto split: if_splits)

lemma take_contract_zero:
  assumes "compare_contract T" and "n \<le> length xs" and "n \<le> length ys"
  shows "traits_compare T (take n xs) (take n ys) = 0 \<longleftrightarrow>
           (\<forall>i<n. traits_eq T (xs ! i) (ys ! i))"
  using compare_contract_zero [OF assms(1), of "take n xs" "take n ys"] assms(2,3)
  by (simp add: min_absorb2)

lemma take_contract_neg:
  assumes "compare_contract T" and "n \<le> length xs" and "n \<le> length ys"
  shows "traits_compare T (take n xs) (take n ys) < 0 \<longleftrightarrow>
           \<not> (\<forall>i<n. traits_eq T (xs ! i) (ys ! i)) \<and>
           (\<exists>j<n. traits_lt T (xs ! j) (ys ! j) \<and> (\<forall>i<j. traits_eq T (xs ! i) (ys ! i)))"
proof -
  have "(\<exists>j<n. traits_lt T (take n xs ! j) (take n ys ! j) \<and>
              (\<forall>i<j. traits_eq T (take n xs ! i) (take n ys ! i)))
        \<longleftrightarrow> (\<exists>j<n. traits_lt T (xs ! j) (ys ! j) \<and> (\<forall>i<j. traits_eq T (xs ! i) (ys ! i)))"
    by auto
  then show ?thesis
    using compare_contract_neg [OF assms(1), of "take n xs" "take n ys"] assms(2,3)
    by (simp add: min_absorb2)
qed

lemma Traits_compare_value:
  "chars_at h p n = Some xs \<Longrightarrow> chars_at h q n = Some ys \<Longrightarrow>
     Traits_compare T h p q n = Inr (traits_compare T xs ys)"
  by (simp add: Traits_compare_def)

text \<open>The operations declared \<^verbatim>\<open>noexcept\<close> end in a value or in undefined behaviour,
  never in something a caller could catch.\<close>

lemma load_noexcept: "\<not> fails_recoverably (load h p)"
  by (cases p) simp_all

lemma subscript_noexcept: "\<not> fails_recoverably (subscript h v p)"
  by (simp add: subscript_def load_noexcept)

lemma Traits_compare_noexcept: "\<not> fails_recoverably (Traits_compare T h p q n)"
  by (simp add: Traits_compare_def split: option.splits)

lemma Traits_length_noexcept: "\<not> fails_recoverably (Traits_length T h p)"
  by (cases p) (simp_all split: option.splits)

lemma view_of_pointer_noexcept: "\<not> fails_recoverably (view_of_pointer T h p)"
  using Traits_length_noexcept [of T h p]
  by (auto simp add: view_of_pointer_def split: sum.splits)

lemma compare_noexcept: "\<not> fails_recoverably (compare T h v w)"
  using Traits_compare_noexcept [of T h "data v" "data w" "min (size_view v) (size_view w)"]
  by (auto simp add: compare_def Let_def split: sum.splits)

lemma compare_pointer_noexcept: "\<not> fails_recoverably (compare_pointer T h v p)"
  using view_of_pointer_noexcept [of T h p]
  by (auto simp add: compare_pointer_def compare_noexcept split: sum.splits)

lemma starts_with_noexcept: "\<not> fails_recoverably (starts_with T h v w)"
  using Traits_compare_noexcept [of T h "data v" "data w" "size_view w"]
  by (auto simp add: starts_with_def split: sum.splits)

lemma ends_with_noexcept: "\<not> fails_recoverably (ends_with T h v w)"
  using Traits_compare_noexcept
    [of T h "ptr_sub (ptr_add (data v) (size_view v)) (size_view w)" "data w" "size_view w"]
  by (auto simp add: ends_with_def split: sum.splits)

lemma starts_with_char_noexcept: "\<not> fails_recoverably (starts_with_char T h v c)"
  using subscript_noexcept [of h v 0]
  by (auto simp add: starts_with_char_def front_def split: sum.splits)

lemma ends_with_char_noexcept: "\<not> fails_recoverably (ends_with_char T h v c)"
  using subscript_noexcept [of h v "size_t_sub (size_view v) 1"]
  by (auto simp add: ends_with_char_def back_view_def split: sum.splits)

lemma operators_noexcept:
  "\<not> fails_recoverably (operator_eq T h x y)" "\<not> fails_recoverably (operator_ne T h x y)"
  "\<not> fails_recoverably (operator_lt T h x y)" "\<not> fails_recoverably (operator_gt T h x y)"
  "\<not> fails_recoverably (operator_le T h x y)" "\<not> fails_recoverably (operator_ge T h x y)"
  using compare_noexcept [of T h x y]
  by (auto simp add: operator_eq_def operator_ne_def operator_lt_def operator_gt_def
      operator_le_def operator_ge_def split: sum.splits)

text \<open>The two operations that are not \<^verbatim>\<open>noexcept\<close> besides \<^verbatim>\<open>at\<close> fail as their
  collaborator does.\<close>

lemma to_string_fails: "fails_recoverably (to_string A h v) \<longleftrightarrow> \<not> A (size_view v)"
  by (simp add: to_string_def split: option.splits)

lemma to_string_BadAlloc: "to_string A h v = Inl BadAlloc \<longleftrightarrow> \<not> A (size_view v)"
  by (simp add: to_string_def split: option.splits)

lemma operator_insert_fails:
  "fails_recoverably (operator_insert wr h st v) \<longleftrightarrow>
     (\<exists>cs. content h v = Some cs \<and> wr st cs = None)"
  by (auto simp add: operator_insert_def content_def observers split: option.splits)

lemma operator_insert_StreamFailure:
  "operator_insert wr h st v = Inl StreamFailure \<longleftrightarrow>
     (\<exists>cs. content h v = Some cs \<and> wr st cs = None)"
  by (auto simp add: operator_insert_def content_def observers split: option.splits)

lemma valid_view_terminator: "valid_view h v \<Longrightarrow> subscript h v (size_view v) = Inr 0"
  by (cases "m_data v") (simp_all add: valid_view_def subscript_def observers)

text \<open>Every constructor yields a view over a null-terminated source when it is given one,
  and \<^verbatim>\<open>remove_prefix\<close> keeps it so.\<close>

lemma valid_view_default: "static_storage h \<Longrightarrow> valid_view h BasicStringView"
  by (simp add: valid_view_def BasicStringView_def empty_string_def static_storage_def)

lemma valid_view_array:
  "b < length h \<Longrightarrow> h ! b \<noteq> [] \<Longrightarrow> last (h ! b) = 0 \<Longrightarrow> valid_view h (view_of_array h b)"
  by (simp add: valid_view_def view_of_array_def last_conv_nth)

lemma valid_view_examples:
  "valid_view example_heap hello" "valid_view example_heap abc" "valid_view example_heap abd"
  "valid_view example_heap he" "valid_view example_heap lo"
  by (simp_all add: valid_view_def examples)

lemma scan_Some:
  "scan P xs = Some n \<Longrightarrow> n < length xs \<and> P (xs ! n) \<and> (\<forall>k<n. \<not> P (xs ! k))"
proof (induction xs arbitrary: n)
  case Nil
  then show ?case by simp
next
  case (Cons x xs)
  show ?case
  proof (cases "P x")
    case True
    with Cons.prems show ?thesis by simp
  next
    case False
    with Cons.prems obtain m where m: "scan P xs = Some m" and n: "n = Suc m"
      by auto
    from Cons.IH [OF m] n False show ?thesis
      by (auto simp add: nth_Cons split: nat.splits)
  qed
qed

lemma valid_view_pointer:
  assumes "\<And>c. traits_eq T c 0 \<longleftrightarrow> c = 0" and "view_of_pointer T h p = Inr v"
  shows "valid_view h v"
proof (cases p)
  case Null
  with assms(2) show ?thesis by (simp add: view_of_pointer_def)
next
  case (Ptr b i)
  with assms(2) obtain n where b: "b < length h" and i: "i \<le> length (h ! b)"
    and n: "scan (\<lambda>c. traits_eq T c 0) (drop i (h ! b)) = Some n"
    and v: "v = \<lparr>m_data = Ptr b i, m_size = n\<rparr>"
    by (auto simp add: view_of_pointer_def split: if_splits option.splits)
  from scan_Some [OF n] have "n < length (drop i (h ! b))"
    and "traits_eq T (drop i (h ! b) ! n) 0" by simp_all
  with assms(1) i have "i + n < length (h ! b)" and "h ! b ! (i + n) = 0"
    by simp_all
  with b v show ?thesis by (simp add: valid_view_def)
qed

lemma valid_view_remove_prefix:
  "valid_view (heap s) (views s a) \<Longrightarrow>
     valid_view (heap (remove_prefix a n s)) (views (remove_prefix a n s) a)"
  by (cases "m_data (views s a)")
    (auto simp add: valid_view_def remove_prefix_def set_data_def set_size_def Let_def observers)

text \<open>Materialising an owning string extends the storage by one array.\<close>

lemma valid_view_extend: "valid_view h v \<Longrightarrow> valid_view (h @ [ys]) v"
  by (cases "m_data v") (auto simp add: valid_view_def nth_append)

lemma to_string_value:
  assumes "content h v = Some xs" and "A (size_view v)"
  shows "to_string A h v =
           Inr (h @ [xs @ [0]], \<lparr>str_data = Ptr (length h) 0, str_size = size_view v\<rparr>)"
  using assms content_length [OF assms(1)]
  by (simp add: to_string_def content_def observers)

lemma compare_equal_content:
  assumes "traits_ok T" and "content h a = Some xs" and "content h b = Some xs"
  shows "compare T h a b = Inr 0"
proof -
  have o: "order_contract T" using assms(1) by (simp add: traits_ok_def)
  obtain r where r: "compare T h a b = Inr r" and s: "sgn r = lex_sign T xs xs"
    using compare_sgn [OF assms] by blast
  from s have "r = 0"
    by (simp add: lex_sign_refl [OF o] sgn_0_0)
  with r show ?thesis by simp
qed

text \<open>The model on the library's everyday use: a view over \<^verbatim>\<open>"hello"\<close> has size 5,
  starts with \<^verbatim>\<open>'h'\<close> and \<^verbatim>\<open>"he"\<close>, ends with \<^verbatim>\<open>'o'\<close> and \<^verbatim>\<open>"lo"\<close>, and compares
  equal to \<^verbatim>\<open>"hello"\<close>; \<^verbatim>\<open>"abc"\<close> is less than \<^verbatim>\<open>"abd"\<close>.\<close>

lemma scenario_hello:
  "view_of_pointer char_traits example_heap (Ptr 1 0) = Inr hello"
  "size_view hello = 5"
  "front example_heap hello = Inr 104"
  "back_view example_heap hello = Inr 111"
  "starts_with char_traits example_heap hello he = Inr True"
  "ends_with char_traits example_heap hello lo = Inr True"
  "starts_with_char char_traits example_heap hello 104 = Inr True"
  "ends_with_char char_traits example_heap hello 111 = Inr True"
  "compare_pointer char_traits example_heap hello (Ptr 1 0) = Inr 0"
  "compare char_traits example_heap abc abd = Inr (- 1)"
  "size_view BasicStringView = 0" "empty_view BasicStringView"
  by (simp_all add: view_of_pointer_def compare_pointer_def compare_def starts_with_def
      ends_with_def starts_with_char_def ends_with_char_def front_def back_view_def
      subscript_def size_t_sub_def Traits_compare_def Let_def observers examples
      char_traits_def BasicStringView_def)

section \<open>Properties of the view\<close>

text \<open>
  \<^bold>\<open>C1.\<close>  On two readable views \<^verbatim>\<open>compare\<close> returns a result.  With \<open>n\<close> the smaller
  of the two sizes and \<open>c\<close> the traits comparison of the first \<open>n\<close> characters of both:
  a non-zero \<open>c\<close> is the result; \<open>c\<close> is zero exactly when the two prefixes agree under
  the traits equality at every position, and negative exactly when at the first position
  where they disagree the left character is less than the right one; and when \<open>c\<close> is zero
  the result is 0 for equal sizes, negative when the left view is shorter and positive when
  it is longer.
\<close>

theorem compare_three_way:
  assumes "compare_contract T" and "content h a = Some xs" and "content h b = Some ys"
  shows "\<exists>r. compare T h a b = Inr r \<and>
           (let n = min (size_view a) (size_view b);
                c = traits_compare T (take n xs) (take n ys)
            in (c \<noteq> 0 \<longrightarrow> r = c) \<and>
               (c = 0 \<longleftrightarrow> (\<forall>i<n. traits_eq T (xs ! i) (ys ! i))) \<and>
               (c < 0 \<longleftrightarrow>
                  \<not> (\<forall>i<n. traits_eq T (xs ! i) (ys ! i)) \<and>
                  (\<exists>j<n. traits_lt T (xs ! j) (ys ! j) \<and> (\<forall>i<j. traits_eq T (xs ! i) (ys ! i)))) \<and>
               (c = 0 \<longrightarrow>
                  (size_view a = size_view b \<longrightarrow> r = 0) \<and>
                  (size_view a < size_view b \<longrightarrow> r < 0) \<and>
                  (size_view a > size_view b \<longrightarrow> r > 0)))"
proof -
  define n where "n = min (size_view a) (size_view b)"
  have "length xs = size_view a" and "length ys = size_view b"
    using assms(2,3) by (simp_all add: content_length)
  then have nx: "n \<le> length xs" and ny: "n \<le> length ys"
    by (simp_all add: n_def)
  have z: "traits_compare T (take n xs) (take n ys) = 0 \<longleftrightarrow>
             (\<forall>i<n. traits_eq T (xs ! i) (ys ! i))"
    using take_contract_zero [OF assms(1) nx ny] .
  have m: "traits_compare T (take n xs) (take n ys) < 0 \<longleftrightarrow>
             \<not> (\<forall>i<n. traits_eq T (xs ! i) (ys ! i)) \<and>
             (\<exists>j<n. traits_lt T (xs ! j) (ys ! j) \<and> (\<forall>i<j. traits_eq T (xs ! i) (ys ! i)))"
    using take_contract_neg [OF assms(1) nx ny] .
  show ?thesis
    unfolding compare_value [OF assms(2,3)] Let_def n_def [symmetric]
    using z m by auto
qed

theorem compare_three_way_witness:
  "compare_contract (char_traits :: 8 word traits) \<and>
   content example_heap abc = Some [97, 98, 99] \<and>
   content example_heap abd = Some [97, 98, 100] \<and>
   compare char_traits example_heap abc abd = Inr (- 1)"
proof -
  have c: "compare_contract (char_traits :: 8 word traits)"
    using char_traits_ok [where 'c = "8 word"] by (simp add: traits_ok_def)
  have "traits_compare char_traits [97, 98, 99] [97, 98, 100 :: 8 word] = - 1"
    by (simp add: char_traits_def)
  then show ?thesis
    using compare_three_way [OF c content_examples(2) content_examples(3)] c content_examples
    by (auto simp add: Let_def observers examples)
qed

text \<open>
  \<^bold>\<open>C2.\<close>  \<^verbatim>\<open>at\<close> is not the only operation that can end in a failure the caller can
  catch: \<^verbatim>\<open>to_string\<close> on a view of 32 characters, with an allocator that gives out at
  most 15, ends in the allocator's exception.
\<close>

theorem to_string_failure_counterexample:
  "to_string (bounded_allocator 15) long_heap long_text = Inl BadAlloc \<and>
   recoverable BadAlloc \<and>
   fails_recoverably (to_string (bounded_allocator 15) long_heap long_text)"
  by (simp add: to_string_def bounded_allocator_def observers long_text_def long_heap_def
      view_of_array_def)

text \<open>
  \<^bold>\<open>C2, amended.\<close>  \<^verbatim>\<open>at(p)\<close> fails, with the out-of-range error, exactly when \<open>p\<close>
  exceeds the size; up to the size it is \<^verbatim>\<open>operator[](p)\<close>, and at the size of a view
  over a null-terminated source it returns the zero character.  No other operation ends in
  the out-of-range error.  The operations declared \<^verbatim>\<open>noexcept\<close> never end in a failure
  that can be caught; \<^verbatim>\<open>to_string\<close> does exactly when the allocator refuses the storage,
  and then with the allocator's failure; \<^verbatim>\<open>operator<<\<close> does exactly when the view is
  readable and the stream's write throws, and then with the stream's failure.
\<close>

theorem at_view_checked:
  "(at_view h v p = Inl OutOfRange \<longleftrightarrow> p > size_view v) \<and>
   (fails_recoverably (at_view h v p) \<longleftrightarrow> p > size_view v) \<and>
   (p \<le> size_view v \<longrightarrow> at_view h v p = subscript h v p) \<and>
   (valid_view h v \<longrightarrow> at_view h v (size_view v) = Inr 0) \<and>
   \<not> fails_recoverably (subscript h v p) \<and>
   \<not> fails_recoverably (front h v) \<and>
   \<not> fails_recoverably (back_view h v) \<and>
   \<not> fails_recoverably (compare T h v w) \<and>
   \<not> fails_recoverably (compare_pointer T h v q) \<and>
   \<not> fails_recoverably (starts_with T h v w) \<and>
   \<not> fails_recoverably (starts_with_char T h v c) \<and>
   \<not> fails_recoverably (ends_with T h v w) \<and>
   \<not> fails_recoverably (ends_with_char T h v c) \<and>
   \<not> fails_recoverably (view_of_pointer T h q) \<and>
   \<not> fails_recoverably (operator_eq T h v w) \<and>
   \<not> fails_recoverably (operator_ne T h v w) \<and>
   \<not> fails_recoverably (operator_lt T h v w) \<and>
   \<not> fails_recoverably (operator_gt T h v w) \<and>
   \<not> fails_recoverably (operator_le T h v w) \<and>
   \<not> fails_recoverably (operator_ge T h v w) \<and>
   to_string A h v \<noteq> Inl OutOfRange \<and>
   (fails_recoverably (to_string A h v) \<longleftrightarrow> \<not> A (size_view v)) \<and>
   (to_string A h v = Inl BadAlloc \<longleftrightarrow> \<not> A (size_view v)) \<and>
   operator_insert wr h st v \<noteq> Inl OutOfRange \<and>
   (fails_recoverably (operator_insert wr h st v) \<longleftrightarrow>
      (\<exists>cs. content h v = Some cs \<and> wr st cs = None)) \<and>
   (operator_insert wr h st v = Inl StreamFailure \<longleftrightarrow>
      (\<exists>cs. content h v = Some cs \<and> wr st cs = None))"
proof -
  have a1: "at_view h v p = Inl OutOfRange \<longleftrightarrow> p > size_view v"
    using subscript_noexcept [of h v p] by (auto simp add: at_view_def)
  have a2: "fails_recoverably (at_view h v p) \<longleftrightarrow> p > size_view v"
    using subscript_noexcept [of h v p] by (simp add: at_view_def)
  have a3: "p \<le> size_view v \<longrightarrow> at_view h v p = subscript h v p"
    by (simp add: at_view_def)
  have a4: "valid_view h v \<longrightarrow> at_view h v (size_view v) = Inr 0"
    by (simp add: at_view_def valid_view_terminator)
  have f: "\<not> fails_recoverably (front h v)" and b: "\<not> fails_recoverably (back_view h v)"
    by (simp_all add: front_def back_view_def subscript_noexcept)
  have t: "to_string A h v \<noteq> Inl OutOfRange"
    by (simp add: to_string_def split: option.splits)
  have i: "operator_insert wr h st v \<noteq> Inl OutOfRange"
    by (simp add: operator_insert_def split: option.splits)
  note n = subscript_noexcept [of h v p] compare_noexcept [of T h v w]
    compare_pointer_noexcept [of T h v q] starts_with_noexcept [of T h v w]
    starts_with_char_noexcept [of T h v c] ends_with_noexcept [of T h v w]
    ends_with_char_noexcept [of T h v c] view_of_pointer_noexcept [of T h q]
    operators_noexcept [of T h v w]
  note e = to_string_fails [of A h v] to_string_BadAlloc [of A h v]
    operator_insert_fails [of wr h st v]
    operator_insert_StreamFailure [of wr h st v]
  show ?thesis
    by (intro conjI a1 a2 a3 a4 f b t i n e)
qed

theorem at_view_checked_witness:
  "valid_view long_heap long_text \<and> 32 \<le> size_view long_text \<and>
   content long_heap long_text \<noteq> None \<and>
   at_view long_heap long_text 32 = Inr 0 \<and>
   at_view long_heap long_text 32 = subscript long_heap long_text 32 \<and>
   at_view long_heap long_text 1 = Inr 97 \<and>
   to_string (bounded_allocator 15) long_heap long_text = Inl BadAlloc \<and>
   operator_insert (\<lambda>os cs. None :: unit option) long_heap () long_text = Inl StreamFailure \<and>
   at_view example_heap hello 6 = Inl OutOfRange"
proof -
  have s: "size_view long_text = 32"
    by (simp add: observers long_text_def long_heap_def view_of_array_def)
  have v: "valid_view long_heap long_text"
    by (simp add: valid_view_def long_text_def long_heap_def view_of_array_def)
  have c: "content long_heap long_text \<noteq> None"
    by (simp add: content_def long_text_def long_heap_def view_of_array_def)
  have one: "at_view long_heap long_text 1 = Inr 97"
    by (simp add: at_view_def subscript_def observers long_text_def long_heap_def
        view_of_array_def)
  have h: "size_view hello = 5"
    by (simp add: observers examples)
  have a: "\<not> bounded_allocator 15 32"
    by (simp add: bounded_allocator_def)
  show ?thesis
    using at_view_checked [where h = long_heap and v = long_text and p = 32
          and T = "char_traits :: 8 word traits" and w = long_text and q = Null and c = 0
          and A = "bounded_allocator 15" and wr = "\<lambda>os cs. None :: unit option"
          and st = "()"]
      at_view_checked [where h = example_heap and v = hello and p = 6
          and T = "char_traits :: 8 word traits" and w = hello and q = Null and c = 0
          and A = unbounded_allocator and wr = "\<lambda>os cs. None :: unit option"
          and st = "()"]
      s v c one h a
    by auto
qed

text \<open>
  \<^bold>\<open>C3.\<close>  On readable views, \<^verbatim>\<open>starts_with(prefix)\<close> holds exactly when the prefix is
  no longer than the view and each of its characters equals, under the traits, the character
  of the view at the same position; \<^verbatim>\<open>ends_with(suffix)\<close> holds exactly when the suffix
  is no longer than the view and each of its characters equals the character of the view at
  the same distance from the end.  With a single character, an empty view neither starts
  nor ends with it.
\<close>

theorem starts_ends_with:
  "(compare_contract T \<and> content h v = Some xs \<and> content h p = Some ps \<longrightarrow>
      starts_with T h v p =
        Inr (size_view p \<le> size_view v \<and> (\<forall>i < size_view p. traits_eq T (xs ! i) (ps ! i))) \<and>
      ends_with T h v p =
        Inr (size_view p \<le> size_view v \<and>
             (\<forall>i < size_view p. traits_eq T (xs ! (size_view v - size_view p + i)) (ps ! i)))) \<and>
   (empty_view w \<longrightarrow>
      starts_with_char T h w c = Inr False \<and> ends_with_char T h w c = Inr False)"
proof (intro conjI impI; (elim conjE)?)
  assume T: "compare_contract T" and v: "content h v = Some xs" and p: "content h p = Some ps"
  have lv: "length xs = size_view v" and lp: "length ps = size_view p"
    using v p by (simp_all add: content_length)
  have q: "chars_at h (data p) (size_view p) = Some ps"
    using p by (simp add: content_def observers)
  show "starts_with T h v p =
        Inr (size_view p \<le> size_view v \<and> (\<forall>i < size_view p. traits_eq T (xs ! i) (ps ! i)))"
  proof (cases "size_view p \<le> size_view v")
    case True
    have "chars_at h (data v) (size_view p) = Some (take (size_view p) xs)"
      using chars_at_take [of h "m_data v" "m_size v" xs "size_view p"] v True
      by (simp add: content_def observers)
    then have "Traits_compare T h (data v) (data p) (size_view p)
                 = Inr (traits_compare T (take (size_view p) xs) ps)"
      using q by (rule Traits_compare_value)
    moreover have "traits_compare T (take (size_view p) xs) ps = 0 \<longleftrightarrow>
                     (\<forall>i < size_view p. traits_eq T (xs ! i) (ps ! i))"
      using compare_contract_zero [OF T, of "take (size_view p) xs" ps] True lv lp
      by (simp add: min_absorb2)
    ultimately show ?thesis
      using True by (simp add: starts_with_def)
  next
    case False
    then show ?thesis by (simp add: starts_with_def)
  qed
  show "ends_with T h v p =
        Inr (size_view p \<le> size_view v \<and>
             (\<forall>i < size_view p. traits_eq T (xs ! (size_view v - size_view p + i)) (ps ! i)))"
  proof (cases "size_view p \<le> size_view v")
    case True
    have "chars_at h (ptr_sub (ptr_add (data v) (size_view v)) (size_view p)) (size_view p)
            = Some (drop (size_view v - size_view p) xs)"
      using chars_at_suffix [of h "m_data v" "m_size v" xs "size_view p"] v True
      by (simp add: content_def observers)
    then have "Traits_compare T h (ptr_sub (ptr_add (data v) (size_view v)) (size_view p))
                 (data p) (size_view p)
                 = Inr (traits_compare T (drop (size_view v - size_view p) xs) ps)"
      using q by (rule Traits_compare_value)
    moreover have "traits_compare T (drop (size_view v - size_view p) xs) ps = 0 \<longleftrightarrow>
                     (\<forall>i < size_view p. traits_eq T (xs ! (size_view v - size_view p + i)) (ps ! i))"
      using compare_contract_zero [OF T, of "drop (size_view v - size_view p) xs" ps] True lv lp
      by simp
    ultimately show ?thesis
      using True by (simp add: ends_with_def)
  next
    case False
    then show ?thesis by (simp add: ends_with_def)
  qed
next
  assume "empty_view w"
  then show "starts_with_char T h w c = Inr False"
    by (simp add: starts_with_char_def)
next
  assume "empty_view w"
  then show "ends_with_char T h w c = Inr False"
    by (simp add: ends_with_char_def)
qed

theorem starts_ends_with_witness:
  "compare_contract (char_traits :: 8 word traits) \<and>
   content example_heap hello = Some [104, 101, 108, 108, 111] \<and>
   content example_heap he = Some [104, 101] \<and>
   starts_with char_traits example_heap hello he = Inr True \<and>
   ends_with char_traits example_heap hello he = Inr False \<and>
   empty_view BasicStringView \<and>
   starts_with_char char_traits example_heap BasicStringView 104 = Inr False \<and>
   ends_with_char char_traits example_heap BasicStringView 104 = Inr False"
proof -
  have c: "compare_contract (char_traits :: 8 word traits)"
    using char_traits_ok [where 'c = "8 word"] by (simp add: traits_ok_def)
  have e: "empty_view BasicStringView"
    by (simp add: empty_view_def size_view_def BasicStringView_def)
  have s: "starts_with char_traits example_heap hello he = Inr True"
    by (simp add: starts_with_def Traits_compare_def observers examples char_traits_def)
  have t: "ends_with char_traits example_heap hello he = Inr False"
    by (simp add: ends_with_def Traits_compare_def observers examples char_traits_def)
  show ?thesis
    using starts_ends_with [of char_traits example_heap hello "[104, 101, 108, 108, 111]"
        he "[104, 101]" BasicStringView 104] c e s t content_examples
    by simp
qed

text \<open>
  \<^bold>\<open>C4.\<close>  \<^verbatim>\<open>remove_prefix(n)\<close> with \<open>n\<close> at most the size leaves a view of size
  \<^verbatim>\<open>size() - n\<close> whose data pointer is the old one advanced by \<open>n\<close> and whose content is
  the old content without its first \<open>n\<close> characters; with \<open>n\<close> above the size it leaves an
  empty view.  The character storage is the same afterwards, and so is every other view
  object.
\<close>

theorem remove_prefix_view:
  "(n \<le> size_view (views s a) \<longrightarrow>
      size_view (views (remove_prefix a n s) a) = size_view (views s a) - n \<and>
      data (views (remove_prefix a n s) a) = ptr_add (data (views s a)) n \<and>
      content (heap (remove_prefix a n s)) (views (remove_prefix a n s) a)
        = map_option (drop n) (content (heap s) (views s a))) \<and>
   (n > size_view (views s a) \<longrightarrow>
      size_view (views (remove_prefix a n s) a) = 0 \<and>
      empty_view (views (remove_prefix a n s) a)) \<and>
   heap (remove_prefix a n s) = heap s \<and>
   (b \<noteq> a \<longrightarrow> views (remove_prefix a n s) b = views s b)"
  using chars_at_ptr_add [of n "m_size (views s a)" "heap s" "m_data (views s a)"]
  by (simp add: remove_prefix_def set_data_def set_size_def Let_def observers content_def)

theorem remove_prefix_view_witness:
  "2 \<le> size_view hello \<and> 9 > size_view hello \<and> (1::nat) \<noteq> 0 \<and>
   views (remove_prefix 0 2 \<lparr>heap = example_heap, views = (\<lambda>_. hello)\<rparr>) 0
     = \<lparr>m_data = Ptr 1 2, m_size = 3\<rparr> \<and>
   content example_heap \<lparr>m_data = Ptr 1 2, m_size = 3\<rparr> = Some [108, 108, 111] \<and>
   views (remove_prefix 0 2 \<lparr>heap = example_heap, views = (\<lambda>_. hello)\<rparr>) 1 = hello \<and>
   size_view (views (remove_prefix 0 9 \<lparr>heap = example_heap, views = (\<lambda>_. hello)\<rparr>) 0) = 0"
proof -
  have s: "size_view hello = 5"
    by (simp add: observers examples)
  have v: "views (remove_prefix 0 2 \<lparr>heap = example_heap, views = (\<lambda>_. hello)\<rparr>) 0
             = \<lparr>m_data = Ptr 1 2, m_size = 3\<rparr>"
    by (simp add: remove_prefix_def set_data_def set_size_def Let_def observers examples)
  have c: "content example_heap \<lparr>m_data = Ptr 1 2, m_size = 3\<rparr> = Some [108, 108, 111]"
    by (simp add: content_def examples)
  show ?thesis
    using remove_prefix_view [of 2 "\<lparr>heap = example_heap, views = (\<lambda>_. hello)\<rparr>" 0 1]
      remove_prefix_view [of 9 "\<lparr>heap = example_heap, views = (\<lambda>_. hello)\<rparr>" 0 1] s v c
    by simp
qed

text \<open>
  \<^bold>\<open>C5.\<close>  The literal equation \<^verbatim>\<open>compare(a, b) == -compare(b, a)\<close> fails for a traits
  class that reports "greater" and "less" with values of different magnitude:
  \<^verbatim>\<open>compare\<close> passes the value of \<^verbatim>\<open>Traits::compare\<close> on unchanged.
\<close>

theorem compare_negation_counterexample:
  "compare skew_traits example_heap abc abd = Inr (- 1) \<and>
   compare skew_traits example_heap abd abc = Inr 2 \<and>
   (- 1 :: int) \<noteq> - 2"
  by (simp add: compare_def Traits_compare_def Let_def observers examples skew_traits_def)

text \<open>
  \<^bold>\<open>C5, amended.\<close>  For readable views and a traits class that meets the contract:
  \<^verbatim>\<open>compare(a, a)\<close> is 0; \<^verbatim>\<open>compare(a, b)\<close> and \<^verbatim>\<open>compare(b, a)\<close> have opposite
  signs, and they are each other's negation if and only if the two values that
  \<^verbatim>\<open>Traits::compare\<close> returns on the common prefixes, taken in the one order and in the
  other, are each other's negation; and \<^verbatim>\<open>compare(a, b) < 0\<close> with
  \<^verbatim>\<open>compare(b, c) < 0\<close> gives \<^verbatim>\<open>compare(a, c) < 0\<close>.
\<close>

theorem compare_order:
  assumes "traits_ok T"
    and "content h a = Some xs" and "content h b = Some ys" and "content h c = Some zs"
  shows "compare T h a a = Inr 0 \<and>
         (\<exists>r r'. compare T h a b = Inr r \<and> compare T h b a = Inr r' \<and> sgn r = - sgn r' \<and>
            (r = - r' \<longleftrightarrow>
               traits_compare T (take (min (size_view a) (size_view b)) xs)
                                (take (min (size_view a) (size_view b)) ys)
               = - traits_compare T (take (min (size_view a) (size_view b)) ys)
                                    (take (min (size_view a) (size_view b)) xs))) \<and>
         (\<exists>r s t. compare T h a b = Inr r \<and> compare T h b c = Inr s \<and>
            compare T h a c = Inr t \<and> (r < 0 \<and> s < 0 \<longrightarrow> t < 0))"
proof -
  have o: "order_contract T" using assms(1) by (simp add: traits_ok_def)
  obtain r where r: "compare T h a b = Inr r" and sr: "sgn r = lex_sign T xs ys"
    using compare_sgn [OF assms(1,2,3)] by blast
  obtain r' where r': "compare T h b a = Inr r'" and sr': "sgn r' = lex_sign T ys xs"
    using compare_sgn [OF assms(1,3,2)] by blast
  obtain s where s: "compare T h b c = Inr s" and ss: "sgn s = lex_sign T ys zs"
    using compare_sgn [OF assms(1,3,4)] by blast
  obtain t where t: "compare T h a c = Inr t" and st: "sgn t = lex_sign T xs zs"
    using compare_sgn [OF assms(1,2,4)] by blast
  have refl: "compare T h a a = Inr 0"
    using assms(1,2,2) by (rule compare_equal_content)
  have anti: "sgn r = - sgn r'"
    using sr sr' lex_sign_antisym [OF o, of ys xs] by simp
  define n where "n = min (size_view a) (size_view b)"
  define k where "k = traits_compare T (take n xs) (take n ys)"
  define k' where "k' = traits_compare T (take n ys) (take n xs)"
  have exact: "r = - r' \<longleftrightarrow> k = - k'"
  proof -
    have n': "min (size_view b) (size_view a) = n"
      by (simp add: n_def min.commute)
    have len: "length (take n xs) = length (take n ys)"
      using assms(2,3) by (simp add: content_length n_def)
    have "sgn k = lex_sign T (take n xs) (take n ys)"
      unfolding k_def using assms(1) len by (rule traits_compare_sgn)
    moreover have "sgn k' = lex_sign T (take n ys) (take n xs)"
      unfolding k'_def using assms(1) len [symmetric] by (rule traits_compare_sgn)
    ultimately have "sgn k = - sgn k'"
      using lex_sign_antisym [OF o, of "take n ys" "take n xs"] by simp
    then have zero: "k = 0 \<longleftrightarrow> k' = 0"
      by (metis neg_equal_0_iff_equal sgn_0_0)
    have "compare T h a b =
            Inr (if k = 0 then (if size_view a = size_view b then 0
                                else if size_view a < size_view b then - 1 else 1) else k)"
      unfolding compare_value [OF assms(2,3)] Let_def n_def [symmetric] k_def [symmetric] ..
    with r have rv: "r = (if k = 0 then (if size_view a = size_view b then 0
                                else if size_view a < size_view b then - 1 else 1) else k)"
      by simp
    have "compare T h b a =
            Inr (if k' = 0 then (if size_view b = size_view a then 0
                                 else if size_view b < size_view a then - 1 else 1) else k')"
      unfolding compare_value [OF assms(3,2)] Let_def n' k'_def [symmetric] ..
    with r' have rv': "r' = (if k' = 0 then (if size_view b = size_view a then 0
                                 else if size_view b < size_view a then - 1 else 1) else k')"
      by simp
    show ?thesis
    proof (cases "k = 0")
      case True
      with zero have "k' = 0" by simp
      with True rv rv' show ?thesis by simp
    next
      case False
      with zero have "k' \<noteq> 0" by simp
      with False rv rv' show ?thesis by simp
    qed
  qed
  have trans: "t < 0" if "r < 0" and "s < 0"
  proof -
    from that sr ss have "lex_sign T xs ys < 0" and "lex_sign T ys zs < 0"
      by (simp_all add: sgn_if split: if_splits)
    with o have "lex_sign T xs zs < 0" by (rule lex_sign_trans)
    with st show ?thesis by (simp add: sgn_if split: if_splits)
  qed
  have "compare T h a b = Inr r \<and> compare T h b a = Inr r' \<and> sgn r = - sgn r' \<and>
          (r = - r' \<longleftrightarrow>
               traits_compare T (take (min (size_view a) (size_view b)) xs)
                                (take (min (size_view a) (size_view b)) ys)
               = - traits_compare T (take (min (size_view a) (size_view b)) ys)
                                    (take (min (size_view a) (size_view b)) xs))"
    using r r' anti exact unfolding k_def k'_def n_def by (intro conjI)
  then have two: "\<exists>r r'. compare T h a b = Inr r \<and> compare T h b a = Inr r' \<and> sgn r = - sgn r' \<and>
          (r = - r' \<longleftrightarrow>
               traits_compare T (take (min (size_view a) (size_view b)) xs)
                                (take (min (size_view a) (size_view b)) ys)
               = - traits_compare T (take (min (size_view a) (size_view b)) ys)
                                    (take (min (size_view a) (size_view b)) xs))"
    by (intro exI)
  have "compare T h a b = Inr r \<and> compare T h b c = Inr s \<and>
          compare T h a c = Inr t \<and> (r < 0 \<and> s < 0 \<longrightarrow> t < 0)"
    using r s t trans by simp
  then have three: "\<exists>r s t. compare T h a b = Inr r \<and> compare T h b c = Inr s \<and>
          compare T h a c = Inr t \<and> (r < 0 \<and> s < 0 \<longrightarrow> t < 0)"
    by (intro exI)
  show ?thesis
    using refl two three by (intro conjI)
qed

theorem compare_order_witness:
  "traits_ok (char_traits :: 8 word traits) \<and>
   content example_heap abc = Some [97, 98, 99] \<and>
   content example_heap abd = Some [97, 98, 100] \<and>
   content example_heap hello = Some [104, 101, 108, 108, 111] \<and>
   compare char_traits example_heap abc abc = Inr 0 \<and>
   compare char_traits example_heap abc abd = Inr (- 1) \<and>
   compare char_traits example_heap abd abc = Inr 1 \<and>
   compare char_traits example_heap abd hello = Inr (- 1) \<and>
   compare char_traits example_heap abc hello = Inr (- 1)"
proof -
  have "compare char_traits example_heap abc abd = Inr (- 1)"
    and "compare char_traits example_heap abd abc = Inr 1"
    and "compare char_traits example_heap abd hello = Inr (- 1)"
    and "compare char_traits example_heap abc hello = Inr (- 1)"
    by (simp_all add: compare_def Traits_compare_def Let_def observers examples char_traits_def)
  then show ?thesis
    using compare_order [OF char_traits_ok content_examples(2) content_examples(3)
        content_examples(1)]
      char_traits_ok [where 'c = "8 word"] content_examples
    by simp
qed

text \<open>
  \<^bold>\<open>C6.\<close>  Indexing a view over a null-terminated source at its size yields the zero
  character.
\<close>

theorem subscript_at_size:
  "valid_view h v \<Longrightarrow> subscript h v (size_view v) = Inr 0"
  by (rule valid_view_terminator)

theorem subscript_at_size_witness:
  "valid_view example_heap hello \<and> subscript example_heap hello (size_view hello) = Inr 0"
  using subscript_at_size [OF valid_view_examples(1)] valid_view_examples(1) by simp

text \<open>
  \<^bold>\<open>C7.\<close>  \<^verbatim>\<open>to_string\<close> on a readable view, its storage granted by the allocator,
  returns an owning string; the view of that string has the size and the characters of the
  original view, is null-terminated, and compares equal to the original (in both
  directions).
\<close>

theorem to_string_round_trip:
  assumes "traits_ok T" and "content h v = Some xs" and "A (size_view v)"
  shows "\<exists>h' s. to_string A h v = Inr (h', s) \<and>
           size_view (view_of_string s) = size_view v \<and>
           content h' (view_of_string s) = Some xs \<and>
           content h' v = Some xs \<and>
           valid_view h' (view_of_string s) \<and>
           compare T h' v (view_of_string s) = Inr 0 \<and>
           compare T h' (view_of_string s) v = Inr 0"
proof -
  let ?h = "h @ [xs @ [0]]"
  let ?s = "\<lparr>str_data = Ptr (length h) 0, str_size = size_view v\<rparr>"
  have len: "length xs = size_view v"
    using assms(2) by (rule content_length)
  have t: "to_string A h v = Inr (?h, ?s)"
    using assms(2,3) by (rule to_string_value)
  have w: "content ?h (view_of_string ?s) = Some xs"
    using chars_at_fresh [of h xs 0] len by (simp add: content_def view_of_string_def)
  have v: "content ?h v = Some xs"
    using assms(2) by (simp add: content_def chars_at_extend)
  have "valid_view ?h (view_of_string ?s)"
    using len by (simp add: valid_view_def view_of_string_def nth_append)
  moreover have "size_view (view_of_string ?s) = size_view v"
    by (simp add: view_of_string_def size_view_def)
  moreover note compare_equal_content [OF assms(1) v w] compare_equal_content [OF assms(1) w v]
  ultimately show ?thesis
    using t v w by blast
qed

theorem to_string_round_trip_witness:
  "traits_ok (char_traits :: 8 word traits) \<and>
   content example_heap hello = Some [104, 101, 108, 108, 111] \<and>
   unbounded_allocator (size_view hello) \<and>
   to_string unbounded_allocator example_heap hello =
     Inr (example_heap @ [[104, 101, 108, 108, 111, 0]], \<lparr>str_data = Ptr 6 0, str_size = 5\<rparr>) \<and>
   compare char_traits (example_heap @ [[104, 101, 108, 108, 111, 0]]) hello
     (view_of_string \<lparr>str_data = Ptr 6 0, str_size = 5\<rparr>) = Inr 0"
proof -
  have u: "unbounded_allocator (size_view hello)"
    by (simp add: unbounded_allocator_def)
  have t: "to_string unbounded_allocator example_heap hello =
     Inr (example_heap @ [[104, 101, 108, 108, 111, 0]], \<lparr>str_data = Ptr 6 0, str_size = 5\<rparr>)"
    by (simp add: to_string_def unbounded_allocator_def observers examples)
  show ?thesis
    using to_string_round_trip [where A = unbounded_allocator,
          OF char_traits_ok content_examples(1) u] t u
      char_traits_ok [where 'c = "8 word"] content_examples(1)
    by auto
qed

text \<open>
  \<^bold>\<open>C8.\<close>  After \<^verbatim>\<open>a.swap(b)\<close> the view object \<open>a\<close> holds what \<open>b\<close> held and \<open>b\<close> holds
  what \<open>a\<close> held; the character storage is the same, and every view object other than the
  two is unchanged, whatever it points to.
\<close>

theorem swap_view_exchange:
  "views (swap_view a b s) a = views s b \<and> views (swap_view a b s) b = views s a \<and>
   heap (swap_view a b s) = heap s \<and>
   (c \<noteq> a \<and> c \<noteq> b \<longrightarrow> views (swap_view a b s) c = views s c)"
  by (simp add: swap_view_def set_data_def set_size_def Let_def)

theorem swap_view_exchange_witness:
  "(2::nat) \<noteq> 0 \<and> (2::nat) \<noteq> 1 \<and>
   views (swap_view 0 1 \<lparr>heap = example_heap, views = (\<lambda>_. hello)(1 := he)\<rparr>) 0 = he \<and>
   views (swap_view 0 1 \<lparr>heap = example_heap, views = (\<lambda>_. hello)(1 := he)\<rparr>) 1 = hello \<and>
   views (swap_view 0 1 \<lparr>heap = example_heap, views = (\<lambda>_. hello)(1 := he)\<rparr>) 2 = hello \<and>
   heap (swap_view 0 1 \<lparr>heap = example_heap, views = (\<lambda>_. hello)(1 := he)\<rparr>) = example_heap"
  using swap_view_exchange [of 0 1 "\<lparr>heap = example_heap, views = (\<lambda>_. hello)(1 := he)\<rparr>" 2]
  by simp

text \<open>
  \<^bold>\<open>C9.\<close>  The default-constructed view has size 0 and is empty; its data pointer is not
  null: it is the address of the static empty string, an array that holds the terminator
  and nothing else.  The array is there for the whole run: of the operations of the class
  only \<^verbatim>\<open>to_string\<close> changes the storage, and it adds an array and keeps the others.
\<close>

theorem default_view_empty:
  "size_view BasicStringView = 0 \<and> empty_view BasicStringView \<and>
   data BasicStringView \<noteq> Null \<and> data BasicStringView = empty_string \<and>
   (static_storage h \<longrightarrow>
      content h BasicStringView = Some [] \<and> load h (data BasicStringView) = Inr 0 \<and>
      chars_at h empty_string 1 = Some [0] \<and> valid_view h BasicStringView \<and>
      (to_string A h v = Inr (h', s) \<longrightarrow> static_storage h'))"
  by (auto simp add: BasicStringView_def observers empty_string_def static_storage_def
      content_def valid_view_def to_string_def nth_append split: option.splits if_splits)

theorem default_view_empty_witness:
  "static_storage example_heap \<and> content example_heap BasicStringView = Some [] \<and>
   load example_heap (data BasicStringView) = Inr 0 \<and>
   to_string unbounded_allocator example_heap hello =
     Inr (example_heap @ [[104, 101, 108, 108, 111, 0]], \<lparr>str_data = Ptr 6 0, str_size = 5\<rparr>) \<and>
   static_storage (example_heap @ [[104, 101, 108, 108, 111, 0]])"
proof -
  have a: "static_storage example_heap"
    by (simp add: static_storage_def example_heap_def)
  have t: "to_string unbounded_allocator example_heap hello =
     Inr (example_heap @ [[104, 101, 108, 108, 111, 0]], \<lparr>str_data = Ptr 6 0, str_size = 5\<rparr>)"
    by (simp add: to_string_def unbounded_allocator_def observers examples)
  show ?thesis
    using default_view_empty [of example_heap unbounded_allocator hello
        "example_heap @ [[104, 101, 108, 108, 111, 0]]" "\<lparr>str_data = Ptr 6 0, str_size = 5\<rparr>"]
      a t
    by blast
qed

text \<open>
  \<^bold>\<open>C10.\<close>  On an empty view over a null-terminated source \<^verbatim>\<open>front()\<close> is defined: it is
  \<^verbatim>\<open>operator[]\<close> at position 0, which is the size, and returns the zero character.
  \<^verbatim>\<open>back()\<close> on the same view has no defined result.
\<close>

theorem front_of_empty:
  "valid_view h v \<Longrightarrow> empty_view v \<Longrightarrow>
     front h v = Inr 0 \<and> front h v = subscript h v 0 \<and> size_view v = 0 \<and>
     (addressable h \<longrightarrow> back_view h v = Inl UndefinedBehaviour)"
  by (cases "m_data v")
    (auto simp add: valid_view_def front_def back_view_def subscript_def observers
      addressable_def size_t_sub_def list_all_length)

theorem front_of_empty_witness:
  "valid_view example_heap BasicStringView \<and> empty_view BasicStringView \<and>
   addressable example_heap \<and>
   front example_heap BasicStringView = Inr 0 \<and>
   back_view example_heap BasicStringView = Inl UndefinedBehaviour"
proof -
  have v: "valid_view example_heap BasicStringView"
    by (simp add: valid_view_def BasicStringView_def empty_string_def example_heap_def)
  have e: "empty_view BasicStringView"
    by (simp add: empty_view_def size_view_def BasicStringView_def)
  have a: "addressable example_heap"
    by (simp add: addressable_def SIZE_MAX_def example_heap_def)
  show ?thesis
    using front_of_empty [OF v e] v e a by simp
qed

end
